theory Spec2Isabelle
  imports Complex_Main "HOL-Library.Char_ord" "HOL-Library.List_Lexorder"
    "HOL-Library.Product_Lexorder" "HOL-Library.Multiset"
begin

section \<open>Influencer ROI dashboard: the KPI functions of app.py\<close>

text \<open>
  The three KPI functions of \<^verbatim>\<open>src/app.py\<close> (\<^verbatim>\<open>calculate_roas\<close>,
  \<^verbatim>\<open>calculate_iroas\<close>, \<^verbatim>\<open>get_top_influencers\<close>) are pure functions over pandas
  data frames. A data frame is modelled as the list of its rows, a row as a record of
  the columns the functions read or write.
\<close>

subsection \<open>Cell values\<close>

text \<open>
  A float64 cell. pandas marks a missing cell (an unmatched row of a left join, the mean
  of an empty column) with NaN and answers a division by zero with an infinity or NaN,
  never with an exception, so these three values are kept apart from the numbers.
  Numbers themselves are idealised as reals: no rounding, no overflow, no signed zero.
\<close>

datatype fval = Val real | NaN | PInf | NInf

fun fneg :: "fval \<Rightarrow> fval" where
  "fneg (Val a) = Val (- a)"
| "fneg NaN = NaN"
| "fneg PInf = NInf"
| "fneg NInf = PInf"

fun fadd :: "fval \<Rightarrow> fval \<Rightarrow> fval" where
  "fadd (Val a) (Val b) = Val (a + b)"
| "fadd NaN _ = NaN"
| "fadd _ NaN = NaN"
| "fadd PInf NInf = NaN"
| "fadd NInf PInf = NaN"
| "fadd PInf _ = PInf"
| "fadd _ PInf = PInf"
| "fadd NInf _ = NInf"
| "fadd _ NInf = NInf"

definition fsub :: "fval \<Rightarrow> fval \<Rightarrow> fval" where
  "fsub a b = fadd a (fneg b)"

text \<open>The infinity with the sign of a nonzero real.\<close>

definition inf_of_sign :: "real \<Rightarrow> fval" where
  "inf_of_sign s = (if 0 < s then PInf else NInf)"

fun fmul :: "fval \<Rightarrow> fval \<Rightarrow> fval" where
  "fmul (Val a) (Val b) = Val (a * b)"
| "fmul NaN _ = NaN"
| "fmul _ NaN = NaN"
| "fmul (Val a) PInf = (if a = 0 then NaN else inf_of_sign a)"
| "fmul (Val a) NInf = (if a = 0 then NaN else inf_of_sign (- a))"
| "fmul PInf (Val b) = (if b = 0 then NaN else inf_of_sign b)"
| "fmul NInf (Val b) = (if b = 0 then NaN else inf_of_sign (- b))"
| "fmul PInf PInf = PInf"
| "fmul PInf NInf = NInf"
| "fmul NInf PInf = NInf"
| "fmul NInf NInf = PInf"

text \<open>
  Division of float columns. A zero divisor does not raise: a nonzero number over zero
  is an infinity of its sign, zero over zero is NaN. (The zero divisors of this program
  are sums, which are never the negative zero.)
\<close>

fun fdiv :: "fval \<Rightarrow> fval \<Rightarrow> fval" where
  "fdiv (Val a) (Val b) =
     (if b = 0 then (if a = 0 then NaN else inf_of_sign a) else Val (a / b))"
| "fdiv NaN _ = NaN"
| "fdiv _ NaN = NaN"
| "fdiv (Val a) PInf = Val 0"
| "fdiv (Val a) NInf = Val 0"
| "fdiv PInf (Val b) = (if 0 \<le> b then PInf else NInf)"
| "fdiv NInf (Val b) = (if 0 \<le> b then NInf else PInf)"
| "fdiv PInf PInf = NaN"
| "fdiv PInf NInf = NaN"
| "fdiv NInf PInf = NaN"
| "fdiv NInf NInf = NaN"

definition is_finite :: "fval \<Rightarrow> bool" where
  "is_finite v = (case v of Val _ \<Rightarrow> True | _ \<Rightarrow> False)"

text \<open>The literal \<^verbatim>\<open>1e-9\<close> of the source.\<close>

definition eps :: real where
  "eps = 1 / 10 ^ 9"

text \<open>
  \<^verbatim>\<open>Series.mean()\<close> with its default \<^verbatim>\<open>skipna=True\<close>: NaN cells are left out of
  both the sum and the count, and the mean of no cell at all is NaN.
\<close>

definition notna :: "fval \<Rightarrow> bool" where
  "notna v = (v \<noteq> NaN)"

definition mean :: "fval list \<Rightarrow> fval" where
  "mean xs =
     (let vs = filter notna xs
      in if vs = [] then NaN else fdiv (foldr fadd vs (Val 0)) (Val (real (length vs))))"

subsection \<open>Input tables\<close>

text \<open>
  A row of \<^verbatim>\<open>tracking.csv\<close>. \<^verbatim>\<open>influencer_id\<close> is empty (NaN) on the rows that
  are not influencer-sourced, hence optional. The \<^verbatim>\<open>date\<close> and \<^verbatim>\<open>campaign\<close>
  columns are not read by the three functions.
\<close>

record tracking_row =
  source :: string
  influencer_id :: "int option"
  user_id :: int
  product :: string
  orders :: int
  revenue :: real

text \<open>The two columns of \<^verbatim>\<open>payouts.csv\<close> the functions select.\<close>

record payout_row =
  pay_influencer_id :: int
  pay_total_payout :: real

record influencer_row =
  id_col :: int
  name :: string
  category :: string
  gender :: string
  follower_count :: int
  platform :: string

record post_row =
  post_influencer_id :: int
  likes :: int
  comments :: int
  reach :: int

subsection \<open>Data-frame operations\<close>

text \<open>
  \<^verbatim>\<open>df.groupby(keys)\<close>: one group per distinct key, the groups in ascending key
  order (\<^verbatim>\<open>sort=True\<close>), the rows of a group in table order; a row whose key is
  missing belongs to no group (\<^verbatim>\<open>dropna=True\<close>).
\<close>

definition groupby :: "('a \<Rightarrow> 'k::linorder option) \<Rightarrow> 'a list \<Rightarrow> ('k \<times> 'a list) list" where
  "groupby key rows =
     map (\<lambda>k. (k, filter (\<lambda>r. key r = Some k) rows))
       (sort (remdups (List.map_filter key rows)))"

text \<open>\<^verbatim>\<open>('user_id', 'nunique')\<close>: the number of distinct values.\<close>

definition nunique :: "'a list \<Rightarrow> nat" where
  "nunique xs = length (remdups xs)"

text \<open>
  \<^verbatim>\<open>left.merge(right, how='left')\<close>: every left row, in order, once for each right
  row with its key, and once with missing right columns when there is none.
\<close>

definition merge_left :: "('a \<Rightarrow> 'k) \<Rightarrow> ('b \<Rightarrow> 'k) \<Rightarrow> 'a list \<Rightarrow> 'b list \<Rightarrow> ('a \<times> 'b option) list" where
  "merge_left kl kr ls rs =
     concat (map (\<lambda>l. case filter (\<lambda>r. kr r = kl l) rs of
                          [] \<Rightarrow> [(l, None)]
                        | ms \<Rightarrow> map (\<lambda>r. (l, Some r)) ms) ls)"

text \<open>\<^verbatim>\<open>left.merge(right)\<close>, the default inner join: a left row without a match is dropped.\<close>

definition merge_inner :: "('a \<Rightarrow> 'k) \<Rightarrow> ('b \<Rightarrow> 'k) \<Rightarrow> 'a list \<Rightarrow> 'b list \<Rightarrow> ('a \<times> 'b) list" where
  "merge_inner kl kr ls rs =
     concat (map (\<lambda>l. map (\<lambda>r. (l, r)) (filter (\<lambda>r. kr r = kl l) rs)) ls)"

text \<open>A column of a left join: the right row's cell, NaN where there was no right row.\<close>

definition cell :: "('b \<Rightarrow> fval) \<Rightarrow> 'b option \<Rightarrow> fval" where
  "cell col r = (case r of None \<Rightarrow> NaN | Some b \<Rightarrow> col b)"

subsection \<open>calculate\_roas\<close>

text \<open>
  \<^verbatim>\<open>roas = total_rev / total_spend if total_spend else 0\<close>; the result is the tuple
  \<^verbatim>\<open>(total_rev, total_orders, total_spend, roas)\<close>. The quotient is the float
  division of the cells, which answers a zero divisor with an infinity or NaN; the
  conditional is what keeps it away from a spend of zero.
\<close>

definition calculate_roas :: "tracking_row list \<Rightarrow> payout_row list \<Rightarrow> real \<times> int \<times> real \<times> fval" where
  "calculate_roas tracking_f payouts =
     (let total_rev = sum_list (map revenue tracking_f);
          total_orders = sum_list (map orders tracking_f);
          total_spend = sum_list (map pay_total_payout payouts);
          roas = (if total_spend \<noteq> 0 then fdiv (Val total_rev) (Val total_spend) else Val 0)
      in (total_rev, total_orders, total_spend, roas))"

subsection \<open>calculate\_iroas\<close>

text \<open>
  The organic baseline: \<^verbatim>\<open>organic.groupby('product').agg(org_users=('user_id',
  'nunique'), org_revenue=('revenue', 'sum'))\<close>, then
  \<^verbatim>\<open>rev_per_user = org_revenue / org_users\<close>.
\<close>

record baseline_row =
  base_product :: string
  org_users :: nat
  org_revenue :: real
  rev_per_user :: fval

definition baseline_of :: "string \<times> tracking_row list \<Rightarrow> baseline_row" where
  "baseline_of g =
     (let users = nunique (map user_id (snd g));
          rev = sum_list (map revenue (snd g))
      in \<lparr>base_product = fst g, org_users = users, org_revenue = rev,
          rev_per_user = fdiv (Val rev) (Val (real users))\<rparr>)"

definition baseline :: "tracking_row list \<Rightarrow> baseline_row list" where
  "baseline tracking_f =
     map baseline_of
       (groupby (\<lambda>r. Some (product r)) (filter (\<lambda>r. source r = ''organic'') tracking_f))"

text \<open>
  The treatment groups: the influencer-sourced rows grouped by
  \<^verbatim>\<open>['influencer_id', 'product']\<close> with \<^verbatim>\<open>inf_users\<close> and \<^verbatim>\<open>inf_revenue\<close>.
\<close>

record inf_agg_row =
  agg_influencer_id :: int
  agg_product :: string
  inf_users :: nat
  inf_revenue :: real

definition inf_key :: "tracking_row \<Rightarrow> (int \<times> string) option" where
  "inf_key r = (case influencer_id r of None \<Rightarrow> None | Some i \<Rightarrow> Some (i, product r))"

definition inf_agg_of :: "(int \<times> string) \<times> tracking_row list \<Rightarrow> inf_agg_row" where
  "inf_agg_of g =
     \<lparr>agg_influencer_id = fst (fst g), agg_product = snd (fst g),
      inf_users = nunique (map user_id (snd g)),
      inf_revenue = sum_list (map revenue (snd g))\<rparr>"

definition inf_groups :: "tracking_row list \<Rightarrow> inf_agg_row list" where
  "inf_groups tracking_f =
     map inf_agg_of (groupby inf_key (filter (\<lambda>r. source r = ''influencer'') tracking_f))"

text \<open>A row of the returned table \<^verbatim>\<open>inf_perf\<close>, with every column the function adds.\<close>

record inf_perf_row =
  perf_influencer_id :: int
  perf_product :: string
  perf_inf_users :: nat
  perf_inf_revenue :: real
  perf_rev_per_user :: fval
  expected_baseline_rev :: fval
  incremental_revenue :: fval
  total_payout :: fval
  iROAS :: fval

text \<open>
  The columns computed on one row of the two left joins (the baseline on
  \<^verbatim>\<open>product\<close>, the payouts on \<^verbatim>\<open>influencer_id\<close>):
  \<^verbatim>\<open>expected_baseline_rev = rev_per_user * inf_users\<close>,
  \<^verbatim>\<open>incremental_revenue = inf_revenue - expected_baseline_rev\<close>,
  \<^verbatim>\<open>iROAS = incremental_revenue / (total_payout + 1e-9)\<close>.
\<close>

definition inf_perf_of :: "(inf_agg_row \<times> baseline_row option) \<times> payout_row option \<Rightarrow> inf_perf_row" where
  "inf_perf_of j =
     (let a = fst (fst j);
          rpu = cell rev_per_user (snd (fst j));
          expected = fmul rpu (Val (real (inf_users a)));
          incremental = fsub (Val (inf_revenue a)) expected;
          payout = cell (\<lambda>p. Val (pay_total_payout p)) (snd j)
      in \<lparr>perf_influencer_id = agg_influencer_id a, perf_product = agg_product a,
          perf_inf_users = inf_users a, perf_inf_revenue = inf_revenue a,
          perf_rev_per_user = rpu, expected_baseline_rev = expected,
          incremental_revenue = incremental, total_payout = payout,
          iROAS = fdiv incremental (fadd payout (Val eps))\<rparr>)"

definition inf_perf :: "tracking_row list \<Rightarrow> payout_row list \<Rightarrow> inf_perf_row list" where
  "inf_perf tracking_f payouts =
     map inf_perf_of
       (merge_left (\<lambda>j. agg_influencer_id (fst j)) pay_influencer_id
          (merge_left agg_product base_product (inf_groups tracking_f) (baseline tracking_f))
          payouts)"

definition calculate_iroas :: "tracking_row list \<Rightarrow> payout_row list \<Rightarrow> inf_perf_row list \<times> fval" where
  "calculate_iroas tracking_f payouts =
     (let table = inf_perf tracking_f payouts
      in (table, mean (map iROAS table)))"

subsection \<open>get\_top\_influencers\<close>

text \<open>
  \<^verbatim>\<open>sort_values(col, ascending=False)\<close> sorts the reversed column in ascending order
  and reverses the result; \<^verbatim>\<open>head(n)\<close> is the slice \<^verbatim>\<open>[:n]\<close>, which for a
  negative \<^verbatim>\<open>n\<close> drops the last \<^verbatim>\<open>-n\<close> rows. Rows of equal revenue are ordered
  here as a stable sort orders them; the default sort kind of pandas promises no order
  among them, and nothing below depends on it.
\<close>

definition sort_values_desc :: "('a \<Rightarrow> real) \<Rightarrow> 'a list \<Rightarrow> 'a list" where
  "sort_values_desc col rows = rev (sort_key col (rev rows))"

definition head :: "int \<Rightarrow> 'a list \<Rightarrow> 'a list" where
  "head n rows =
     (if 0 \<le> n then take (nat n) rows else take (length rows - nat (- n)) rows)"

record top_agg_row =
  agg_id :: int
  agg_revenue :: real
  agg_orders :: int

definition top_agg_of :: "int \<times> tracking_row list \<Rightarrow> top_agg_row" where
  "top_agg_of g =
     \<lparr>agg_id = fst g, agg_revenue = sum_list (map revenue (snd g)),
      agg_orders = sum_list (map orders (snd g))\<rparr>"

definition top_groups :: "tracking_row list \<Rightarrow> top_agg_row list" where
  "top_groups tracking_f =
     map top_agg_of (groupby influencer_id (filter (\<lambda>r. source r = ''influencer'') tracking_f))"

record post_metrics_row =
  pm_influencer_id :: int
  total_likes :: int
  total_comments :: int
  total_reach :: int
  pm_engagement_rate :: fval

definition post_metrics_of :: "int \<times> post_row list \<Rightarrow> post_metrics_row" where
  "post_metrics_of g =
     (let l = sum_list (map likes (snd g));
          c = sum_list (map comments (snd g));
          r = sum_list (map reach (snd g))
      in \<lparr>pm_influencer_id = fst g, total_likes = l, total_comments = c, total_reach = r,
          pm_engagement_rate = fdiv (Val (real_of_int (l + c))) (Val (real_of_int r))\<rparr>)"

definition post_metrics :: "post_row list \<Rightarrow> post_metrics_row list" where
  "post_metrics posts_f =
     map post_metrics_of (groupby (\<lambda>p. Some (post_influencer_id p)) posts_f)"

text \<open>
  A row of the ranker's table: the revenue aggregate, the columns of the matching
  roster row, the engagement rate, the payout and
  \<^verbatim>\<open>cost_per_order = total_payout / (orders + 1e-9)\<close>.
\<close>

record top_row =
  top_influencer_id :: int
  top_revenue :: real
  top_orders :: int
  top_influencer :: influencer_row
  engagement_rate :: fval
  top_total_payout :: fval
  cost_per_order :: fval

definition top_row_of ::
  "((top_agg_row \<times> influencer_row) \<times> post_metrics_row option) \<times> payout_row option \<Rightarrow> top_row" where
  "top_row_of j =
     (let a = fst (fst (fst j));
          payout = cell (\<lambda>p. Val (pay_total_payout p)) (snd j)
      in \<lparr>top_influencer_id = agg_id a, top_revenue = agg_revenue a, top_orders = agg_orders a,
          top_influencer = snd (fst (fst j)),
          engagement_rate = cell pm_engagement_rate (snd (fst j)),
          top_total_payout = payout,
          cost_per_order = fdiv payout (Val (real_of_int (agg_orders a) + eps))\<rparr>)"

text \<open>The joined table, before it is sorted and cut.\<close>

definition top_inf :: "tracking_row list \<Rightarrow> post_row list \<Rightarrow> payout_row list \<Rightarrow> influencer_row list \<Rightarrow> top_row list" where
  "top_inf tracking_f posts_f payouts influencers =
     map top_row_of
       (merge_left (\<lambda>j. agg_id (fst (fst j))) pay_influencer_id
          (merge_left (\<lambda>j. agg_id (fst j)) pm_influencer_id
             (merge_inner agg_id id_col (top_groups tracking_f) influencers)
             (post_metrics posts_f))
          payouts)"

definition get_top_influencers ::
  "tracking_row list \<Rightarrow> post_row list \<Rightarrow> payout_row list \<Rightarrow> influencer_row list \<Rightarrow> int \<Rightarrow> top_row list" where
  "get_top_influencers tracking_f posts_f payouts influencers top_n =
     head top_n (sort_values_desc top_revenue (top_inf tracking_f posts_f payouts influencers))"

subsection \<open>Notions of the specification\<close>

text \<open>
  The specification's words for the overall figure: the arithmetic mean of all the values
  of a column, the sum of every cell over the number of cells, in the arithmetic of the
  cells (so one NaN cell makes it NaN). It is compared below with \<open>mean\<close>, which is
  what the source calls.
\<close>

definition arithmetic_mean :: "fval list \<Rightarrow> fval" where
  "arithmetic_mean xs = fdiv (foldr fadd xs (Val 0)) (Val (real (length xs)))"

text \<open>The number in a cell that holds one.\<close>

fun num :: "fval \<Rightarrow> real" where
  "num (Val a) = a"
| "num _ = 0"

text \<open>The organic users of a product: the distinct users on its organic rows.\<close>

definition organic_users :: "tracking_row list \<Rightarrow> string \<Rightarrow> nat" where
  "organic_users tracking_f p =
     nunique (map user_id (filter (\<lambda>r. source r = ''organic'' \<and> product r = p) tracking_f))"

text \<open>The number of distinct influencers on the influencer-sourced rows.\<close>

definition influencer_count :: "tracking_row list \<Rightarrow> nat" where
  "influencer_count tracking_f =
     nunique (List.map_filter influencer_id (filter (\<lambda>r. source r = ''influencer'') tracking_f))"

subsection \<open>Example tables\<close>

text \<open>
  Two organic users of Protein with revenue 1000 (500 per user); influencer 1 with three
  Protein users, revenue 2000 and payout 1000; influencer 4 with payout 0; influencer 2
  selling Snack, a product without organic rows; influencer 3 without a payout row.
\<close>

definition ex_tracking :: "tracking_row list" where
  "ex_tracking =
     [\<lparr>source = ''organic'', influencer_id = None, user_id = 101, product = ''Protein'', orders = 1, revenue = 1000\<rparr>,
      \<lparr>source = ''organic'', influencer_id = None, user_id = 102, product = ''Protein'', orders = 0, revenue = 0\<rparr>,
      \<lparr>source = ''influencer'', influencer_id = Some 1, user_id = 1, product = ''Protein'', orders = 1, revenue = 2000\<rparr>,
      \<lparr>source = ''influencer'', influencer_id = Some 1, user_id = 2, product = ''Protein'', orders = 0, revenue = 0\<rparr>,
      \<lparr>source = ''influencer'', influencer_id = Some 1, user_id = 3, product = ''Protein'', orders = 0, revenue = 0\<rparr>,
      \<lparr>source = ''influencer'', influencer_id = Some 4, user_id = 6, product = ''Protein'', orders = 1, revenue = 1999\<rparr>,
      \<lparr>source = ''influencer'', influencer_id = Some 2, user_id = 4, product = ''Snack'', orders = 1, revenue = 999\<rparr>,
      \<lparr>source = ''influencer'', influencer_id = Some 3, user_id = 5, product = ''Protein'', orders = 1, revenue = 1499\<rparr>]"

definition ex_paid_row :: tracking_row where
  "ex_paid_row =
     \<lparr>source = ''paid_ad'', influencer_id = None, user_id = 7, product = ''Snack'', orders = 1, revenue = 499\<rparr>"

definition ex_payouts :: "payout_row list" where
  "ex_payouts =
     [\<lparr>pay_influencer_id = 1, pay_total_payout = 1000\<rparr>,
      \<lparr>pay_influencer_id = 2, pay_total_payout = 0\<rparr>,
      \<lparr>pay_influencer_id = 4, pay_total_payout = 0\<rparr>]"

definition ex_influencers :: "influencer_row list" where
  "ex_influencers =
     [\<lparr>id_col = 1, name = ''Influencer_1'', category = ''Fitness'', gender = ''F'', follower_count = 50000, platform = ''Instagram''\<rparr>,
      \<lparr>id_col = 2, name = ''Influencer_2'', category = ''Nutrition'', gender = ''M'', follower_count = 20000, platform = ''YouTube''\<rparr>,
      \<lparr>id_col = 3, name = ''Influencer_3'', category = ''Wellness'', gender = ''F'', follower_count = 70000, platform = ''Twitter''\<rparr>,
      \<lparr>id_col = 4, name = ''Influencer_4'', category = ''Lifestyle'', gender = ''M'', follower_count = 10000, platform = ''Instagram''\<rparr>]"

definition ex_posts :: "post_row list" where
  "ex_posts =
     [\<lparr>post_influencer_id = 1, likes = 80, comments = 20, reach = 1000\<rparr>,
      \<lparr>post_influencer_id = 2, likes = 0, comments = 0, reach = 0\<rparr>]"

section \<open>Properties\<close>

subsection \<open>Cells\<close>

lemma fadd_NaN_right [simp]: "fadd v NaN = NaN"
  by (cases v) simp_all

lemma fadd_NaN_left [simp]: "fadd NaN v = NaN"
  by (cases v) simp_all

lemma fsub_NaN [simp]: "fsub v NaN = NaN"
  by (cases v) (simp_all add: fsub_def)

lemma fmul_NaN_left [simp]: "fmul NaN v = NaN"
  by (cases v) simp_all

lemma fmul_NaN_right [simp]: "fmul v NaN = NaN"
  by (cases v) simp_all

lemma fdiv_NaN_left [simp]: "fdiv NaN v = NaN"
  by (cases v) simp_all

lemma fdiv_NaN_right [simp]: "fdiv v NaN = NaN"
  by (cases v) simp_all

lemma foldr_fadd_Val: "foldr fadd (map Val rs) (Val 0) = Val (sum_list rs)"
  by (induction rs) simp_all

lemma finite_list_Val: "list_all is_finite vs \<Longrightarrow> vs = map Val (map num vs)"
proof (induction vs)
  case Nil
  then show ?case by simp
next
  case (Cons v vs)
  then show ?case by (cases v) (simp_all add: is_finite_def)
qed

lemma arithmetic_mean_finite:
  assumes "list_all is_finite vs" "vs \<noteq> []"
  shows "arithmetic_mean vs = Val (sum_list (map num vs) / real (length vs))"
proof -
  have "foldr fadd vs (Val 0) = Val (sum_list (map num vs))"
    using foldr_fadd_Val[of "map num vs"] finite_list_Val[OF assms(1)] by simp
  with assms(2) show ?thesis by (simp add: arithmetic_mean_def)
qed

subsection \<open>Grouping and joins\<close>

lemma set_map_filter_conv: "set (List.map_filter f xs) = {y. \<exists>x\<in>set xs. f x = Some y}"
  by (induction xs) (auto split: option.splits)

lemma groupby_keys: "map fst (groupby key rows) = sort (remdups (List.map_filter key rows))"
  unfolding groupby_def by (simp add: comp_def)

lemma groupby_keys_distinct: "distinct (map fst (groupby key rows))"
  unfolding groupby_keys by simp

lemma groupby_length: "length (groupby key rows) = nunique (List.map_filter key rows)"
  unfolding groupby_def nunique_def by simp

lemma groupby_mem:
  "g \<in> set (groupby key rows) \<Longrightarrow>
     snd g = filter (\<lambda>r. key r = Some (fst g)) rows \<and> (\<exists>r\<in>set rows. key r = Some (fst g))"
  unfolding groupby_def by (auto simp: set_map_filter_conv)

lemma groupby_group_nonempty: "g \<in> set (groupby key rows) \<Longrightarrow> snd g \<noteq> []"
  using groupby_mem[of g key rows] by (auto simp: filter_empty_conv)

lemma groupby_has_key:
  assumes "x \<in> set rows" "key x = Some k"
  shows "\<exists>g\<in>set (groupby key rows). fst g = k"
proof -
  from assms have "k \<in> set (List.map_filter key rows)"
    unfolding set_map_filter_conv by blast
  then have "k \<in> set (sort (remdups (List.map_filter key rows)))" by simp
  then have "(k, filter (\<lambda>r. key r = Some k) rows) \<in> set (groupby key rows)"
    unfolding groupby_def set_map by (rule imageI)
  then show ?thesis by force
qed

lemma nunique_pos: "xs \<noteq> [] \<Longrightarrow> 1 \<le> nunique xs"
  unfolding nunique_def by (cases xs) (auto simp: Suc_le_eq)

lemma nunique_zero: "nunique xs = 0 \<longleftrightarrow> xs = []"
  by (simp add: nunique_def)

lemma organic_users_zero:
  "organic_users t p = 0 \<longleftrightarrow> (\<forall>x\<in>set t. source x = ''organic'' \<longrightarrow> product x \<noteq> p)"
  by (simp add: organic_users_def nunique_zero filter_empty_conv)

lemma merge_left_set:
  "set (merge_left kl kr ls rs) =
     {(l, None) | l. l \<in> set ls \<and> (\<forall>r\<in>set rs. kr r \<noteq> kl l)} \<union>
     {(l, Some r) | l r. l \<in> set ls \<and> r \<in> set rs \<and> kr r = kl l}"
proof -
  have one: "set (case filter (\<lambda>r. kr r = kl l) rs of [] \<Rightarrow> [(l, None)] | ms \<Rightarrow> map (\<lambda>r. (l, Some r)) ms)
      = (if (\<forall>r\<in>set rs. kr r \<noteq> kl l) then {(l, None)}
         else {(l, Some r) | r. r \<in> set rs \<and> kr r = kl l})" for l
  proof (cases "\<forall>r\<in>set rs. kr r \<noteq> kl l")
    case True
    then have "filter (\<lambda>r. kr r = kl l) rs = []" by (simp add: filter_empty_conv)
    with True show ?thesis by simp
  next
    case False
    then have "filter (\<lambda>r. kr r = kl l) rs \<noteq> []" by (simp add: filter_empty_conv)
    then obtain m ms where ms: "filter (\<lambda>r. kr r = kl l) rs = m # ms"
      by (cases "filter (\<lambda>r. kr r = kl l) rs") auto
    have "set (map (\<lambda>r. (l, Some r)) (filter (\<lambda>r. kr r = kl l) rs)) =
          {(l, Some r) | r. r \<in> set rs \<and> kr r = kl l}"
      by auto
    then have "set (map (\<lambda>r. (l, Some r)) (m # ms)) = {(l, Some r) | r. r \<in> set rs \<and> kr r = kl l}"
      by (simp only: ms)
    with False show ?thesis by (simp only: ms list.case if_False)
  qed
  show ?thesis
    unfolding merge_left_def set_concat set_map
    by (auto simp: one split: if_splits)
qed

lemma merge_left_memD:
  assumes "(l, r) \<in> set (merge_left kl kr ls rs)"
  shows "l \<in> set ls"
    and "r = None \<Longrightarrow> \<forall>x\<in>set rs. kr x \<noteq> kl l"
    and "r = Some y \<Longrightarrow> y \<in> set rs \<and> kr y = kl l"
  using assms unfolding merge_left_set by auto

lemma merge_left_memI:
  assumes "l \<in> set ls"
  shows "\<exists>r. (l, r) \<in> set (merge_left kl kr ls rs)"
proof (cases "\<forall>x\<in>set rs. kr x \<noteq> kl l")
  case True
  with assms have "(l, None) \<in> set (merge_left kl kr ls rs)" unfolding merge_left_set by blast
  then show ?thesis ..
next
  case False
  then obtain x where "x \<in> set rs" "kr x = kl l" by blast
  with assms have "(l, Some x) \<in> set (merge_left kl kr ls rs)" unfolding merge_left_set by blast
  then show ?thesis ..
qed

lemma merge_inner_set:
  "set (merge_inner kl kr ls rs) = {(l, r). l \<in> set ls \<and> r \<in> set rs \<and> kr r = kl l}"
  unfolding merge_inner_def by auto

lemma filter_key_le1:
  "distinct (map kr rs) \<Longrightarrow> length (filter (\<lambda>r. kr r = k) rs) \<le> 1"
proof (induction rs)
  case Nil
  then show ?case by simp
next
  case (Cons r rs)
  show ?case
  proof (cases "kr r = k")
    case True
    with Cons.prems have "k \<notin> kr ` set rs" by simp
    then have "\<forall>x\<in>set rs. kr x \<noteq> k" by blast
    then have "filter (\<lambda>r. kr r = k) rs = []" by (simp add: filter_empty_conv)
    with True show ?thesis by simp
  next
    case False
    with Cons show ?thesis by simp
  qed
qed

lemma merge_inner_length:
  assumes "distinct (map kr rs)"
  shows "length (merge_inner kl kr ls rs) \<le> length ls"
proof (induction ls)
  case Nil
  then show ?case by (simp add: merge_inner_def)
next
  case (Cons l ls)
  have "length (filter (\<lambda>r. kr r = kl l) rs) \<le> 1" using assms by (rule filter_key_le1)
  with Cons show ?case by (simp add: merge_inner_def)
qed

lemma merge_left_length:
  assumes "distinct (map kr rs)"
  shows "length (merge_left kl kr ls rs) = length ls"
proof (induction ls)
  case Nil
  then show ?case by (simp add: merge_left_def)
next
  case (Cons l ls)
  have le: "length (filter (\<lambda>r. kr r = kl l) rs) \<le> 1" using assms by (rule filter_key_le1)
  have "length (case filter (\<lambda>r. kr r = kl l) rs of [] \<Rightarrow> [(l, None)]
                | ms \<Rightarrow> map (\<lambda>r. (l, Some r)) ms) = 1"
  proof (cases "filter (\<lambda>r. kr r = kl l) rs")
    case Nil
    then show ?thesis by simp
  next
    case (Cons m ms)
    with le have "ms = []" by simp
    with Cons show ?thesis by simp
  qed
  with Cons show ?case by (simp add: merge_left_def)
qed

subsection \<open>calculate\_roas\<close>

text \<open>
  The division that the conditional of \<open>calculate_roas\<close> guards: over a spend of zero
  it would be an infinity or NaN, never a number.
\<close>

lemma fdiv_zero_not_finite: "\<not> is_finite (fdiv (Val a) (Val 0))"
  by (simp add: is_finite_def inf_of_sign_def)

lemma fdiv_nonzero: "b \<noteq> 0 \<Longrightarrow> fdiv (Val a) (Val b) = Val (a / b)"
  by simp

text \<open>
  Claim C5. For every filtered tracking table and payout table, \<open>calculate_roas\<close>
  returns the sum of \<open>revenue\<close> over all tracking rows whatever their source, the sum
  of the order flags, the sum of \<open>total_payout\<close> over the whole payout table, and as
  ROAS the float quotient of revenue by spend when the spend is not zero and 0 when it
  is. Nothing is raised, and the ROAS is a finite number on every input, never an
  infinity or NaN: the division is not made over a spend of zero.
\<close>

theorem calculate_roas_totals:
  assumes "calculate_roas tracking_f payouts = (total_rev, total_orders, total_spend, roas)"
  shows "total_rev = sum_list (map revenue tracking_f) \<and>
         total_orders = sum_list (map orders tracking_f) \<and>
         total_spend = sum_list (map pay_total_payout payouts) \<and>
         is_finite roas \<and>
         (total_spend \<noteq> 0 \<longrightarrow>
            roas = fdiv (Val total_rev) (Val total_spend) \<and> roas = Val (total_rev / total_spend)) \<and>
         (total_spend = 0 \<longrightarrow>
            roas = Val 0 \<and> roas \<noteq> fdiv (Val total_rev) (Val total_spend))"
proof -
  from assms have t: "total_rev = sum_list (map revenue tracking_f)"
    "total_orders = sum_list (map orders tracking_f)"
    "total_spend = sum_list (map pay_total_payout payouts)"
    and r: "roas = (if total_spend \<noteq> 0 then fdiv (Val total_rev) (Val total_spend) else Val 0)"
    by (auto simp: calculate_roas_def Let_def)
  show ?thesis
  proof (cases "total_spend = 0")
    case True
    with r have z: "roas = Val 0" by simp
    have nf: "\<not> is_finite (fdiv (Val total_rev) (Val 0))"
      by (rule fdiv_zero_not_finite)
    have ne: "Val 0 \<noteq> fdiv (Val total_rev) (Val 0)"
    proof
      assume e: "Val 0 = fdiv (Val total_rev) (Val 0)"
      from nf[folded e] show False by (simp add: is_finite_def)
    qed
    have f: "is_finite (Val 0)" by (simp add: is_finite_def)
    show ?thesis
      unfolding z True using t(1,2) t(3)[unfolded True] ne f by (intro conjI impI) simp_all
  next
    case False
    with r have "roas = fdiv (Val total_rev) (Val total_spend)" by simp
    with t False show ?thesis by (simp add: is_finite_def)
  qed
qed

text \<open>
  On the example tables: a spend of 1000 gives the quotient, an empty payout table
  (spend 0) gives 0 though the revenue is 7497, where the bare division would give an
  infinity.
\<close>

theorem calculate_roas_totals_witness:
  "calculate_roas (ex_paid_row # ex_tracking) ex_payouts = (7996, 6, 1000, Val (7996 / 1000)) \<and>
   (1000::real) \<noteq> 0 \<and> is_finite (Val (7996 / 1000)) \<and>
   Val (7996 / 1000) = fdiv (Val 7996) (Val 1000) \<and>
   calculate_roas ex_tracking [] = (7497, 5, 0, Val 0) \<and>
   Val 0 \<noteq> fdiv (Val 7497) (Val 0) \<and>
   fdiv (Val 7497) (Val 0) = PInf"
proof -
  have a: "calculate_roas (ex_paid_row # ex_tracking) ex_payouts = (7996, 6, 1000, Val (7996 / 1000))"
    by code_simp
  have b: "calculate_roas ex_tracking [] = (7497, 5, 0, Val 0)"
    by code_simp
  from calculate_roas_totals[OF a] have "Val (7996 / 1000) = fdiv (Val 7996) (Val 1000)"
    by simp
  moreover from calculate_roas_totals[OF b] have "Val 0 \<noteq> fdiv (Val 7497) (Val 0)"
    by simp
  moreover have "fdiv (Val 7497) (Val 0) = PInf" by (simp add: inf_of_sign_def)
  ultimately show ?thesis using a b by (simp add: is_finite_def)
qed

subsection \<open>The organic baseline\<close>

lemma baseline_row_organic:
  assumes "b \<in> set (baseline tracking_f)"
  shows "\<exists>r\<in>set tracking_f. source r = ''organic'' \<and> product r = base_product b"
proof -
  let ?org = "filter (\<lambda>r. source r = ''organic'') tracking_f"
  from assms obtain g where g: "g \<in> set (groupby (\<lambda>r. Some (product r)) ?org)"
    and b: "b = baseline_of g"
    unfolding baseline_def by auto
  from groupby_mem[OF g] obtain r where "r \<in> set ?org" "product r = fst g" by auto
  then show ?thesis using b by (auto simp: baseline_of_def Let_def)
qed

lemma baseline_row_users:
  assumes "b \<in> set (baseline tracking_f)"
  shows "1 \<le> org_users b \<and> rev_per_user b = Val (org_revenue b / real (org_users b))"
proof -
  let ?org = "filter (\<lambda>r. source r = ''organic'') tracking_f"
  from assms obtain g where g: "g \<in> set (groupby (\<lambda>r. Some (product r)) ?org)"
    and b: "b = baseline_of g"
    unfolding baseline_def by auto
  have "snd g \<noteq> []" using g by (rule groupby_group_nonempty)
  then have "1 \<le> nunique (map user_id (snd g))" by (intro nunique_pos) simp
  with b show ?thesis by (auto simp: baseline_of_def Let_def)
qed

text \<open>
  Claim C9. The baseline division \<open>org_revenue / org_users\<close> never divides by zero:
  every row of the baseline table comes from a product group with at least one organic
  row, so its count of distinct users is at least 1 and the quotient is a number; a
  product without organic rows has no row in the baseline table.
\<close>

theorem baseline_users_positive:
  assumes "b \<in> set (baseline tracking_f)"
  shows "1 \<le> org_users b \<and> real (org_users b) \<noteq> 0 \<and>
         rev_per_user b = Val (org_revenue b / real (org_users b)) \<and>
         0 < organic_users tracking_f (base_product b)"
proof -
  from baseline_row_organic[OF assms] have "organic_users tracking_f (base_product b) \<noteq> 0"
    unfolding organic_users_zero by blast
  with baseline_row_users[OF assms] show ?thesis by simp
qed

theorem baseline_users_positive_witness:
  "baseline ex_tracking ! 0 \<in> set (baseline ex_tracking) \<and>
   base_product (baseline ex_tracking ! 0) = ''Protein'' \<and>
   org_users (baseline ex_tracking ! 0) = 2 \<and>
   real (org_users (baseline ex_tracking ! 0)) \<noteq> 0 \<and>
   rev_per_user (baseline ex_tracking ! 0) = Val 500 \<and>
   0 < organic_users ex_tracking (base_product (baseline ex_tracking ! 0))"
proof -
  have len: "length (baseline ex_tracking) = 1" by code_simp
  have m: "baseline ex_tracking ! 0 \<in> set (baseline ex_tracking)"
    using len by (simp add: nth_mem)
  have v: "base_product (baseline ex_tracking ! 0) = ''Protein''"
    "org_users (baseline ex_tracking ! 0) = 2"
    "org_revenue (baseline ex_tracking ! 0) = 1000"
    by code_simp+
  from baseline_users_positive[OF m] m v show ?thesis by simp
qed

subsection \<open>calculate\_iroas\<close>

lemma filter_source_paid:
  "s \<noteq> ''paid_ad'' \<Longrightarrow>
   filter (\<lambda>r. source r = s) t =
   filter (\<lambda>r. source r = s) (filter (\<lambda>r. source r \<noteq> ''paid_ad'') t)"
  by (induction t) auto

text \<open>
  Claim C7. Rows with source \<open>paid_ad\<close> have no effect on the iROAS estimator: two
  tracking tables with the same rows of every other source, in the same order, give the
  same per-(influencer, product) table and the same overall iROAS.
\<close>

theorem paid_ad_rows_ignored:
  assumes "filter (\<lambda>r. source r \<noteq> ''paid_ad'') t1 = filter (\<lambda>r. source r \<noteq> ''paid_ad'') t2"
  shows "calculate_iroas t1 payouts = calculate_iroas t2 payouts"
proof -
  have o: "filter (\<lambda>r. source r = ''organic'') t1 = filter (\<lambda>r. source r = ''organic'') t2"
    using filter_source_paid[of "''organic''" t1] filter_source_paid[of "''organic''" t2] assms
    by simp
  have i: "filter (\<lambda>r. source r = ''influencer'') t1 = filter (\<lambda>r. source r = ''influencer'') t2"
    using filter_source_paid[of "''influencer''" t1] filter_source_paid[of "''influencer''" t2] assms
    by simp
  show ?thesis
    unfolding calculate_iroas_def inf_perf_def inf_groups_def baseline_def o i ..
qed

theorem paid_ad_rows_ignored_witness:
  "filter (\<lambda>r. source r \<noteq> ''paid_ad'') (ex_paid_row # ex_tracking) =
     filter (\<lambda>r. source r \<noteq> ''paid_ad'') ex_tracking \<and>
   calculate_iroas (ex_paid_row # ex_tracking) ex_payouts = calculate_iroas ex_tracking ex_payouts"
proof -
  have h: "filter (\<lambda>r. source r \<noteq> ''paid_ad'') (ex_paid_row # ex_tracking) =
     filter (\<lambda>r. source r \<noteq> ''paid_ad'') ex_tracking"
    by (simp add: ex_paid_row_def)
  from paid_ad_rows_ignored[OF h] h show ?thesis by simp
qed

lemma inf_perf_row_cases:
  assumes "r \<in> set (inf_perf t p)"
  obtains a b q where "r = inf_perf_of ((a, b), q)" "a \<in> set (inf_groups t)"
    "\<And>br. b = Some br \<Longrightarrow> br \<in> set (baseline t) \<and> base_product br = agg_product a"
    "q = None \<Longrightarrow> \<forall>x\<in>set p. pay_influencer_id x \<noteq> agg_influencer_id a"
    "\<And>x. q = Some x \<Longrightarrow> x \<in> set p \<and> pay_influencer_id x = agg_influencer_id a"
proof -
  let ?m1 = "merge_left agg_product base_product (inf_groups t) (baseline t)"
  from assms obtain j
    where j: "j \<in> set (merge_left (\<lambda>j. agg_influencer_id (fst j)) pay_influencer_id ?m1 p)"
    and r: "r = inf_perf_of j"
    unfolding inf_perf_def by auto
  obtain a b q where jj: "j = ((a, b), q)" by (metis prod.collapse)
  note m2 = merge_left_memD[OF j[unfolded jj]]
  note m1 = merge_left_memD[OF m2(1)]
  show ?thesis
  proof (rule that[of a b q])
    show "r = inf_perf_of ((a, b), q)" using r jj by simp
    show "a \<in> set (inf_groups t)" by (rule m1(1))
    show "\<And>br. b = Some br \<Longrightarrow> br \<in> set (baseline t) \<and> base_product br = agg_product a"
      by (rule m1(3))
    show "q = None \<Longrightarrow> \<forall>x\<in>set p. pay_influencer_id x \<noteq> agg_influencer_id a"
      using m2(2) by simp
    show "\<And>x. q = Some x \<Longrightarrow> x \<in> set p \<and> pay_influencer_id x = agg_influencer_id a"
      using m2(3) by simp
  qed
qed

lemma inf_perf_of_fields:
  "perf_influencer_id (inf_perf_of ((a, b), q)) = agg_influencer_id a"
  "perf_product (inf_perf_of ((a, b), q)) = agg_product a"
  "perf_inf_revenue (inf_perf_of ((a, b), q)) = inf_revenue a"
  "perf_rev_per_user (inf_perf_of ((a, b), q)) = cell rev_per_user b"
  "expected_baseline_rev (inf_perf_of ((a, b), q)) =
     fmul (cell rev_per_user b) (Val (real (inf_users a)))"
  "incremental_revenue (inf_perf_of ((a, b), q)) =
     fsub (Val (inf_revenue a)) (fmul (cell rev_per_user b) (Val (real (inf_users a))))"
  "total_payout (inf_perf_of ((a, b), q)) = cell (\<lambda>p. Val (pay_total_payout p)) q"
  "iROAS (inf_perf_of ((a, b), q)) =
     fdiv (fsub (Val (inf_revenue a)) (fmul (cell rev_per_user b) (Val (real (inf_users a)))))
       (fadd (cell (\<lambda>p. Val (pay_total_payout p)) q) (Val eps))"
  by (simp_all add: inf_perf_of_def Let_def)

lemma inf_groups_key:
  assumes "x \<in> set tracking_f" "source x = ''influencer''" "influencer_id x = Some i"
  shows "\<exists>a\<in>set (inf_groups tracking_f). agg_influencer_id a = i \<and> agg_product a = product x"
proof -
  let ?rows = "filter (\<lambda>r. source r = ''influencer'') tracking_f"
  from assms have "x \<in> set ?rows" "inf_key x = Some (i, product x)"
    by (simp_all add: inf_key_def)
  from groupby_has_key[where key=inf_key, OF this]
  obtain g where g: "g \<in> set (groupby inf_key ?rows)" "fst g = (i, product x)"
    by (rule bexE)
  from g(1) have "inf_agg_of g \<in> set (inf_groups tracking_f)"
    unfolding inf_groups_def set_map by (rule imageI)
  moreover from g(2)
  have "agg_influencer_id (inf_agg_of g) = i \<and> agg_product (inf_agg_of g) = product x"
    by (simp add: inf_agg_of_def)
  ultimately show ?thesis by (rule bexI[rotated])
qed

lemma inf_perf_keeps_group:
  assumes "a \<in> set (inf_groups t)"
  shows "\<exists>b q. inf_perf_of ((a, b), q) \<in> set (inf_perf t p)"
proof -
  let ?m1 = "merge_left agg_product base_product (inf_groups t) (baseline t)"
  from merge_left_memI[OF assms] obtain b where ab: "(a, b) \<in> set ?m1" by blast
  from merge_left_memI[OF ab] obtain q where
    "((a, b), q) \<in> set (merge_left (\<lambda>j. agg_influencer_id (fst j)) pay_influencer_id ?m1 p)"
    by blast
  then have "inf_perf_of ((a, b), q) \<in> set (inf_perf t p)"
    unfolding inf_perf_def set_map by (rule imageI)
  then show ?thesis by blast
qed

lemma ex_table_length: "length (fst (calculate_iroas ex_tracking ex_payouts)) = 4"
  by code_simp

lemma ex_table_nth:
  "n < 4 \<Longrightarrow> fst (calculate_iroas ex_tracking ex_payouts) ! n
     \<in> set (fst (calculate_iroas ex_tracking ex_payouts))"
  using ex_table_length by (simp add: nth_mem)




text \<open>
  Claim C2, as amended. When the filtered tracking table has no influencer-sourced row
  (an empty date range, or all traffic from \<open>paid_ad\<close>), \<open>calculate_iroas\<close> returns an
  empty per-(influencer, product) table and NaN as the overall mean iROAS: the mean of
  an empty column is NaN, not 0; nothing is raised.
\<close>

theorem no_influencer_rows_empty_nan:
  assumes "filter (\<lambda>r. source r = ''influencer'') tracking_f = []"
  shows "calculate_iroas tracking_f payouts = ([], NaN)"
proof -
  from assms have "inf_groups tracking_f = []" by (simp add: inf_groups_def groupby_def)
  then have "inf_perf tracking_f payouts = []" by (simp add: inf_perf_def merge_left_def)
  then show ?thesis by (simp add: calculate_iroas_def mean_def)
qed

theorem no_influencer_rows_empty_nan_witness:
  "filter (\<lambda>r. source r = ''influencer'') [ex_paid_row] = [] \<and>
   calculate_iroas [ex_paid_row] ex_payouts = ([], NaN)"
proof -
  have h: "filter (\<lambda>r. source r = ''influencer'') [ex_paid_row] = []"
    by (simp add: ex_paid_row_def)
  from no_influencer_rows_empty_nan[OF h] h show ?thesis by simp
qed

text \<open>
  The claim as first stated fails: on a table that holds one \<open>paid_ad\<close> row, and on
  the empty table, the overall mean is NaN and not 0.
\<close>

theorem empty_mean_zero_counterexample:
  "fst (calculate_iroas [ex_paid_row] ex_payouts) = [] \<and>
   snd (calculate_iroas [ex_paid_row] ex_payouts) \<noteq> Val 0 \<and>
   fst (calculate_iroas [] ex_payouts) = [] \<and>
   snd (calculate_iroas [] ex_payouts) \<noteq> Val 0"
  by code_simp

text \<open>
  Claim C3, as amended. In the payout join of the iROAS estimator, every
  (influencer, product) group whose influencer has no row in the payout table is kept in
  the output (a left join: the row is not dropped and nothing is raised); its
  \<open>total_payout\<close> stays missing (NaN, no default 0 is filled in) and its \<open>iROAS\<close>
  is NaN, which is not a finite number.
\<close>

theorem missing_payout_row_kept_nan:
  assumes "x \<in> set tracking_f" "source x = ''influencer''" "influencer_id x = Some i"
    and "i \<notin> set (map pay_influencer_id payouts)"
  shows "(\<exists>r\<in>set (fst (calculate_iroas tracking_f payouts)).
            perf_influencer_id r = i \<and> perf_product r = product x) \<and>
         (\<forall>r\<in>set (fst (calculate_iroas tracking_f payouts)).
            perf_influencer_id r = i \<longrightarrow>
              total_payout r = NaN \<and> iROAS r = NaN \<and> \<not> is_finite (iROAS r))"
proof
  from inf_groups_key[OF assms(1-3)] obtain a where a: "a \<in> set (inf_groups tracking_f)"
    "agg_influencer_id a = i" "agg_product a = product x" by auto
  from inf_perf_keeps_group[OF a(1)] obtain b q where
    "inf_perf_of ((a, b), q) \<in> set (inf_perf tracking_f payouts)" by blast
  then have "inf_perf_of ((a, b), q) \<in> set (fst (calculate_iroas tracking_f payouts))"
    by (simp add: calculate_iroas_def Let_def)
  moreover from a(2,3) have "perf_influencer_id (inf_perf_of ((a, b), q)) = i \<and>
      perf_product (inf_perf_of ((a, b), q)) = product x"
    by (simp add: inf_perf_of_fields)
  ultimately show "\<exists>r\<in>set (fst (calculate_iroas tracking_f payouts)).
            perf_influencer_id r = i \<and> perf_product r = product x"
    by blast
next
  show "\<forall>r\<in>set (fst (calculate_iroas tracking_f payouts)).
            perf_influencer_id r = i \<longrightarrow>
              total_payout r = NaN \<and> iROAS r = NaN \<and> \<not> is_finite (iROAS r)"
  proof (intro ballI impI)
    fix r
    assume "r \<in> set (fst (calculate_iroas tracking_f payouts))" and i: "perf_influencer_id r = i"
    then have "r \<in> set (inf_perf tracking_f payouts)" by (simp add: calculate_iroas_def Let_def)
    then obtain a b q where r: "r = inf_perf_of ((a, b), q)"
      and q: "\<And>x. q = Some x \<Longrightarrow> x \<in> set payouts \<and> pay_influencer_id x = agg_influencer_id a"
      using inf_perf_row_cases[of r tracking_f payouts] by metis
    from i r have "agg_influencer_id a = i" by (simp add: inf_perf_of_fields)
    have "q = None"
    proof (cases q)
      case None
      then show ?thesis .
    next
      case (Some y)
      from q[OF Some] \<open>agg_influencer_id a = i\<close>
      have "y \<in> set payouts" "pay_influencer_id y = i" by simp_all
      then have "i \<in> set (map pay_influencer_id payouts)" by force
      with assms(4) show ?thesis by contradiction
    qed
    then show "total_payout r = NaN \<and> iROAS r = NaN \<and> \<not> is_finite (iROAS r)"
      unfolding r by (simp add: inf_perf_of_fields cell_def is_finite_def)
  qed
qed

theorem missing_payout_row_kept_nan_witness:
  "ex_tracking ! 7 \<in> set ex_tracking \<and> source (ex_tracking ! 7) = ''influencer'' \<and>
   influencer_id (ex_tracking ! 7) = Some 3 \<and> 3 \<notin> set (map pay_influencer_id ex_payouts) \<and>
   perf_influencer_id (fst (calculate_iroas ex_tracking ex_payouts) ! 2) = 3 \<and>
   perf_product (fst (calculate_iroas ex_tracking ex_payouts) ! 2) = product (ex_tracking ! 7) \<and>
   total_payout (fst (calculate_iroas ex_tracking ex_payouts) ! 2) = NaN \<and>
   iROAS (fst (calculate_iroas ex_tracking ex_payouts) ! 2) = NaN"
proof -
  have h: "ex_tracking ! 7 \<in> set ex_tracking" "source (ex_tracking ! 7) = ''influencer''"
    "influencer_id (ex_tracking ! 7) = Some 3" "3 \<notin> set (map pay_influencer_id ex_payouts)"
    by (simp_all add: ex_tracking_def ex_payouts_def)
  have m: "fst (calculate_iroas ex_tracking ex_payouts) ! 2
      \<in> set (fst (calculate_iroas ex_tracking ex_payouts))"
    by (rule ex_table_nth) simp
  have k: "perf_influencer_id (fst (calculate_iroas ex_tracking ex_payouts) ! 2) = 3"
    "perf_product (fst (calculate_iroas ex_tracking ex_payouts) ! 2) = product (ex_tracking ! 7)"
    by code_simp+
  from missing_payout_row_kept_nan[OF h]
  have "\<forall>r\<in>set (fst (calculate_iroas ex_tracking ex_payouts)).
          perf_influencer_id r = 3 \<longrightarrow> total_payout r = NaN \<and> iROAS r = NaN \<and> \<not> is_finite (iROAS r)"
    by (rule conjunct2)
  from bspec[OF this m] k(1)
  have "total_payout (fst (calculate_iroas ex_tracking ex_payouts) ! 2) = NaN \<and>
        iROAS (fst (calculate_iroas ex_tracking ex_payouts) ! 2) = NaN"
    by simp
  with h k show ?thesis by simp
qed

text \<open>
  The claim as first stated fails: influencer 3 has no payout row; the spend of its row
  is not 0 and its iROAS is NaN, not a finite number.
\<close>

theorem missing_payout_default_counterexample:
  "perf_influencer_id (fst (calculate_iroas ex_tracking ex_payouts) ! 2) = 3 \<and>
   3 \<notin> set (map pay_influencer_id ex_payouts) \<and>
   total_payout (fst (calculate_iroas ex_tracking ex_payouts) ! 2) \<noteq> Val 0 \<and>
   iROAS (fst (calculate_iroas ex_tracking ex_payouts) ! 2) = NaN \<and>
   \<not> is_finite (iROAS (fst (calculate_iroas ex_tracking ex_payouts) ! 2))"
  by code_simp

text \<open>
  Claim C4, as amended. For every row of the iROAS table,
  \<open>iROAS = incremental_revenue / (total_payout + 1e-9)\<close> exactly: one division by the
  payout plus the fixed epsilon, with no zero-check branch and no sentinel. Hence a row
  whose incremental revenue is a number and whose payout is a number that is not
  negative (zero included) has the finite iROAS \<open>incremental_revenue / (total_payout +
  1e-9)\<close>; a row whose incremental revenue is NaN has the iROAS NaN whatever the payout.
\<close>

theorem iroas_epsilon_formula:
  assumes "r \<in> set (fst (calculate_iroas tracking_f payouts))"
  shows "iROAS r = fdiv (incremental_revenue r) (fadd (total_payout r) (Val eps)) \<and>
         (\<forall>x s. incremental_revenue r = Val x \<and> total_payout r = Val s \<and> 0 \<le> s \<longrightarrow>
                 iROAS r = Val (x / (s + eps))) \<and>
         (incremental_revenue r = NaN \<longrightarrow> iROAS r = NaN)"
proof -
  from assms have "r \<in> set (inf_perf tracking_f payouts)"
    by (simp add: calculate_iroas_def Let_def)
  then obtain a b q where r: "r = inf_perf_of ((a, b), q)"
    using inf_perf_row_cases[of r tracking_f payouts] by metis
  have f: "iROAS r = fdiv (incremental_revenue r) (fadd (total_payout r) (Val eps))"
    unfolding r by (simp add: inf_perf_of_fields)
  have "0 < eps" by (simp add: eps_def)
  then have "s + eps \<noteq> 0" if "0 \<le> s" for s :: real using that by arith
  with f show ?thesis by auto
qed

theorem iroas_epsilon_formula_witness:
  "fst (calculate_iroas ex_tracking ex_payouts) ! 3 \<in> set (fst (calculate_iroas ex_tracking ex_payouts)) \<and>
   incremental_revenue (fst (calculate_iroas ex_tracking ex_payouts) ! 3) = Val 1499 \<and>
   total_payout (fst (calculate_iroas ex_tracking ex_payouts) ! 3) = Val 0 \<and>
   (0::real) \<le> 0 \<and>
   iROAS (fst (calculate_iroas ex_tracking ex_payouts) ! 3) = Val (1499 / (0 + eps)) \<and>
   is_finite (iROAS (fst (calculate_iroas ex_tracking ex_payouts) ! 3))"
proof -
  have m: "fst (calculate_iroas ex_tracking ex_payouts) ! 3
      \<in> set (fst (calculate_iroas ex_tracking ex_payouts))"
    by (rule ex_table_nth) simp
  have v: "incremental_revenue (fst (calculate_iroas ex_tracking ex_payouts) ! 3) = Val 1499"
    "total_payout (fst (calculate_iroas ex_tracking ex_payouts) ! 3) = Val 0"
    by code_simp+
  from iroas_epsilon_formula[OF m] v
  have "iROAS (fst (calculate_iroas ex_tracking ex_payouts) ! 3) = Val (1499 / (0 + eps))"
    by (simp add: eps_def)
  with m v show ?thesis by (simp add: is_finite_def)
qed

text \<open>
  The claim as first stated fails in its last part: influencer 2 has a payout of exactly
  0, and its iROAS is NaN, not a large finite number, because its incremental revenue is
  NaN.
\<close>

theorem zero_payout_finite_counterexample:
  "perf_influencer_id (fst (calculate_iroas ex_tracking ex_payouts) ! 1) = 2 \<and>
   total_payout (fst (calculate_iroas ex_tracking ex_payouts) ! 1) = Val 0 \<and>
   iROAS (fst (calculate_iroas ex_tracking ex_payouts) ! 1) = NaN \<and>
   \<not> is_finite (iROAS (fst (calculate_iroas ex_tracking ex_payouts) ! 1))"
  by code_simp

text \<open>
  Claim C6, as amended. The overall iROAS returned by \<open>calculate_iroas\<close> is the
  unweighted arithmetic mean of the per-(influencer, product) iROAS values of the output
  table that are not NaN, every such row counting once whatever its revenue or spend; the
  rows whose iROAS is NaN are left out of the sum and of the count, and the result is NaN
  when no row is left. When every iROAS of a non-empty table is a finite number, it is
  the sum of all the values over the number of rows.
\<close>

theorem overall_iroas_mean_of_defined:
  "snd (calculate_iroas tracking_f payouts) =
     (if filter notna (map iROAS (fst (calculate_iroas tracking_f payouts))) = [] then NaN
      else arithmetic_mean (filter notna (map iROAS (fst (calculate_iroas tracking_f payouts))))) \<and>
   (fst (calculate_iroas tracking_f payouts) \<noteq> [] \<and>
    list_all is_finite (map iROAS (fst (calculate_iroas tracking_f payouts))) \<longrightarrow>
      snd (calculate_iroas tracking_f payouts) =
        Val (sum_list (map num (map iROAS (fst (calculate_iroas tracking_f payouts)))) /
             real (length (fst (calculate_iroas tracking_f payouts)))))"
proof -
  define col where "col = map iROAS (fst (calculate_iroas tracking_f payouts))"
  have m: "snd (calculate_iroas tracking_f payouts) = mean col"
    by (simp add: col_def calculate_iroas_def Let_def)
  have a: "mean col = (if filter notna col = [] then NaN else arithmetic_mean (filter notna col))"
    by (simp add: mean_def arithmetic_mean_def Let_def)
  have b: "mean col = Val (sum_list (map num col) / real (length col))"
    if "col \<noteq> []" "list_all is_finite col"
  proof -
    from that(2) have "filter notna col = col"
      by (auto simp: filter_id_conv notna_def is_finite_def list_all_iff)
    with a that(1) arithmetic_mean_finite[OF that(2,1)] show ?thesis by simp
  qed
  have l: "length col = length (fst (calculate_iroas tracking_f payouts))"
    "col = [] \<longleftrightarrow> fst (calculate_iroas tracking_f payouts) = []"
    by (simp_all add: col_def)
  from m a b l show ?thesis unfolding col_def[symmetric] by simp
qed

theorem overall_iroas_mean_of_defined_witness:
  "fst (calculate_iroas (take 6 ex_tracking) ex_payouts) \<noteq> [] \<and>
   list_all is_finite (map iROAS (fst (calculate_iroas (take 6 ex_tracking) ex_payouts))) \<and>
   map iROAS (fst (calculate_iroas (take 6 ex_tracking) ex_payouts)) =
     [Val (500 / (1000 + eps)), Val (1499 / eps)] \<and>
   snd (calculate_iroas (take 6 ex_tracking) ex_payouts) =
     Val ((500 / (1000 + eps) + 1499 / eps) / 2)"
proof -
  have c: "map iROAS (fst (calculate_iroas (take 6 ex_tracking) ex_payouts)) =
     [Val (500 / (1000 + eps)), Val (1499 / eps)]"
    by code_simp
  have n: "fst (calculate_iroas (take 6 ex_tracking) ex_payouts) \<noteq> []"
    using c by auto
  have f: "list_all is_finite (map iROAS (fst (calculate_iroas (take 6 ex_tracking) ex_payouts)))"
    unfolding c by (simp add: is_finite_def)
  have len: "length (fst (calculate_iroas (take 6 ex_tracking) ex_payouts)) = 2"
    using arg_cong[OF c, of length] by simp
  from overall_iroas_mean_of_defined[of "take 6 ex_tracking" ex_payouts] n f
  have "snd (calculate_iroas (take 6 ex_tracking) ex_payouts) =
        Val (sum_list (map num (map iROAS (fst (calculate_iroas (take 6 ex_tracking) ex_payouts)))) /
             real (length (fst (calculate_iroas (take 6 ex_tracking) ex_payouts))))"
    by blast
  then have "snd (calculate_iroas (take 6 ex_tracking) ex_payouts) =
     Val ((500 / (1000 + eps) + 1499 / eps) / 2)"
    unfolding c len by simp
  with n f c show ?thesis by simp
qed

text \<open>
  The claim as first stated fails: the example table is not empty and two of its four
  iROAS values are NaN, so the arithmetic mean of the values of the column is NaN, while
  the function returns the mean of the two other rows.
\<close>

theorem overall_iroas_all_rows_counterexample:
  "fst (calculate_iroas ex_tracking ex_payouts) \<noteq> [] \<and>
   arithmetic_mean (map iROAS (fst (calculate_iroas ex_tracking ex_payouts))) = NaN \<and>
   snd (calculate_iroas ex_tracking ex_payouts) = Val ((500 / (1000 + eps) + 1499 / eps) / 2) \<and>
   snd (calculate_iroas ex_tracking ex_payouts) \<noteq>
     arithmetic_mean (map iROAS (fst (calculate_iroas ex_tracking ex_payouts)))"
  by code_simp

subsection \<open>get\_top\_influencers\<close>

lemma sort_values_desc_sorted:
  "sorted_wrt (\<lambda>a b. col b \<le> col a) (sort_values_desc col rows)"
proof -
  have "sorted (map col (sort_key col (rev rows)))" by simp
  then have "sorted_wrt (\<lambda>x y. col x \<le> col y) (sort_key col (rev rows))"
    by (simp only: sorted_map)
  then show ?thesis
    unfolding sort_values_desc_def sorted_wrt_rev .
qed

lemma sort_values_desc_mset: "mset (sort_values_desc col rows) = mset rows"
  unfolding sort_values_desc_def by simp

lemma head_length: "0 \<le> n \<Longrightarrow> length (head n rows) \<le> nat n"
  by (simp add: head_def)

lemma head_all: "int (length rows) \<le> n \<Longrightarrow> head n rows = rows"
  by (simp add: head_def)

lemma head_sorted: "sorted_wrt P rows \<Longrightarrow> sorted_wrt P (head n rows)"
  by (simp add: head_def sorted_wrt_take)

lemma head_subset: "set (head n rows) \<subseteq> set rows"
  by (simp add: head_def set_take_subset)

lemma post_metrics_keys_distinct: "distinct (map pm_influencer_id (post_metrics posts_f))"
proof -
  have "map pm_influencer_id (post_metrics posts_f) =
        map fst (groupby (\<lambda>p. Some (post_influencer_id p)) posts_f)"
    unfolding post_metrics_def by (simp add: post_metrics_of_def Let_def comp_def)
  then show ?thesis by (simp only: groupby_keys_distinct)
qed

lemma top_groups_length: "length (top_groups tracking_f) = influencer_count tracking_f"
  unfolding top_groups_def influencer_count_def by (simp add: groupby_length)

lemma top_inf_length:
  assumes "distinct (map id_col influencers)" "distinct (map pay_influencer_id payouts)"
  shows "length (top_inf tracking_f posts_f payouts influencers) \<le> influencer_count tracking_f"
proof -
  have "length (top_inf tracking_f posts_f payouts influencers) =
        length (merge_inner agg_id id_col (top_groups tracking_f) influencers)"
    unfolding top_inf_def
    by (simp add: merge_left_length[OF assms(2)] merge_left_length[OF post_metrics_keys_distinct])
  also have "\<dots> \<le> length (top_groups tracking_f)" using assms(1) by (rule merge_inner_length)
  finally show ?thesis by (simp add: top_groups_length)
qed

lemma top_inf_row_roster:
  assumes "r \<in> set (top_inf tracking_f posts_f payouts influencers)"
  shows "top_influencer r \<in> set influencers \<and> id_col (top_influencer r) = top_influencer_id r"
proof -
  let ?m1 = "merge_inner agg_id id_col (top_groups tracking_f) influencers"
  let ?m2 = "merge_left (\<lambda>j. agg_id (fst j)) pm_influencer_id ?m1 (post_metrics posts_f)"
  from assms obtain j
    where j: "j \<in> set (merge_left (\<lambda>j. agg_id (fst (fst j))) pay_influencer_id ?m2 payouts)"
    and r: "r = top_row_of j"
    unfolding top_inf_def by auto
  obtain a i m q where jj: "j = (((a, i), m), q)"
    using prod.collapse[of j] prod.collapse[of "fst j"] prod.collapse[of "fst (fst j)"] by metis
  from merge_left_memD(1)[OF j[unfolded jj]] have "((a, i), m) \<in> set ?m2" .
  from merge_left_memD(1)[OF this] have "(a, i) \<in> set ?m1" .
  then have "i \<in> set influencers \<and> id_col i = agg_id a"
    unfolding merge_inner_set by simp
  then show ?thesis unfolding r jj by (simp add: top_row_of_def Let_def)
qed

lemma head_take: "0 \<le> n \<Longrightarrow> head n rows = take (nat n) rows"
  by (simp add: head_def)

lemma mset_take_drop: "mset xs = mset (take n xs) + mset (drop n xs)"
  by (simp only: mset_append[symmetric] append_take_drop_id)

lemma sorted_wrt_take_drop:
  assumes "sorted_wrt P xs" "b \<in> set (take n xs)" "a \<in> set (drop n xs)"
  shows "P b a"
proof -
  from assms(1) have "sorted_wrt P (take n xs @ drop n xs)" by simp
  with assms(2,3) show ?thesis unfolding sorted_wrt_append by blast
qed

text \<open>
  Claim C8. The top-influencers ranker returns its rows in descending order of revenue,
  cut to the top N (N a row count, so not negative): it returns min(N, number of rows)
  rows of the joined table, each at most as often as the table has it, and every row it
  leaves out has a revenue no greater than every row it returns. When N is at least the
  number of distinct influencers with influencer-sourced rows in the filtered window,
  and the roster and the payout table have one row per influencer as the data model
  says, it returns all the rows of the joined table, each once: nothing is padded and
  nothing is raised. None of this depends on the order among rows of equal revenue.
\<close>

theorem top_influencers_sorted_truncated:
  assumes "0 \<le> top_n"
  shows "sorted_wrt (\<lambda>a b. top_revenue b \<le> top_revenue a)
           (get_top_influencers tracking_f posts_f payouts influencers top_n) \<and>
         length (get_top_influencers tracking_f posts_f payouts influencers top_n) \<le> nat top_n \<and>
         length (get_top_influencers tracking_f posts_f payouts influencers top_n) =
           min (nat top_n) (length (top_inf tracking_f posts_f payouts influencers)) \<and>
         mset (get_top_influencers tracking_f posts_f payouts influencers top_n) \<subseteq>#
           mset (top_inf tracking_f posts_f payouts influencers) \<and>
         (\<forall>a\<in>#(mset (top_inf tracking_f posts_f payouts influencers) -
                 mset (get_top_influencers tracking_f posts_f payouts influencers top_n)).
            \<forall>b\<in>set (get_top_influencers tracking_f posts_f payouts influencers top_n).
              top_revenue a \<le> top_revenue b) \<and>
         (distinct (map id_col influencers) \<and> distinct (map pay_influencer_id payouts) \<and>
          int (influencer_count tracking_f) \<le> top_n \<longrightarrow>
            mset (get_top_influencers tracking_f posts_f payouts influencers top_n) =
              mset (top_inf tracking_f posts_f payouts influencers))"
proof -
  let ?rows = "top_inf tracking_f posts_f payouts influencers"
  let ?out = "get_top_influencers tracking_f posts_f payouts influencers top_n"
  let ?S = "sort_values_desc top_revenue ?rows"
  let ?P = "\<lambda>a b. top_revenue b \<le> top_revenue a"
  have out: "?out = take (nat top_n) ?S"
    unfolding get_top_influencers_def using assms by (rule head_take)
  have sS: "sorted_wrt ?P ?S" by (rule sort_values_desc_sorted)
  have mS: "mset ?S = mset ?rows" by (rule sort_values_desc_mset)
  have lS: "length ?S = length ?rows" by (simp add: sort_values_desc_def)
  have split: "mset ?rows = mset ?out + mset (drop (nat top_n) ?S)"
    unfolding out mS[symmetric] by (rule mset_take_drop)
  have s: "sorted_wrt ?P ?out"
    unfolding out using sS by (rule sorted_wrt_take)
  have l: "length ?out = min (nat top_n) (length ?rows)"
    unfolding out by (simp add: lS min.commute)
  have sub: "mset ?out \<subseteq># mset ?rows"
    unfolding split by simp
  have rest: "mset ?rows - mset ?out = mset (drop (nat top_n) ?S)"
    unfolding split by simp
  have top: "\<forall>a\<in>#(mset ?rows - mset ?out). \<forall>b\<in>set ?out. top_revenue a \<le> top_revenue b"
  proof (intro ballI)
    fix a b
    assume "a \<in># mset ?rows - mset ?out" and b: "b \<in> set ?out"
    then have a: "a \<in> set (drop (nat top_n) ?S)" unfolding rest by simp
    from b have b': "b \<in> set (take (nat top_n) ?S)" unfolding out .
    from sorted_wrt_take_drop[OF sS b' a] show "top_revenue a \<le> top_revenue b" .
  qed
  have a: "mset ?out = mset ?rows"
    if d: "distinct (map id_col influencers)" "distinct (map pay_influencer_id payouts)"
      and n: "int (influencer_count tracking_f) \<le> top_n"
  proof -
    from top_inf_length[OF d, of tracking_f posts_f] n lS
    have "int (length ?S) \<le> top_n" by simp
    then have "?out = ?S"
      unfolding get_top_influencers_def by (rule head_all)
    then show ?thesis by (simp only: sort_values_desc_mset)
  qed
  show ?thesis
  proof (intro conjI impI)
    show "sorted_wrt ?P ?out" by (rule s)
    show "length ?out \<le> nat top_n" unfolding l by simp
    show "length ?out = min (nat top_n) (length ?rows)" by (rule l)
    show "mset ?out \<subseteq># mset ?rows" by (rule sub)
    show "\<forall>a\<in>#(mset ?rows - mset ?out). \<forall>b\<in>set ?out. top_revenue a \<le> top_revenue b"
      by (rule top)
    assume "distinct (map id_col influencers) \<and> distinct (map pay_influencer_id payouts) \<and>
          int (influencer_count tracking_f) \<le> top_n"
    then show "mset ?out = mset ?rows" using a by simp
  qed
qed

text \<open>
  With four influencers and N = 5 all four rows come back, by falling revenue; with
  N = 2 the ranker returns two of the four rows, the two of highest revenue.
\<close>

theorem top_influencers_sorted_truncated_witness:
  "(0::int) \<le> 5 \<and> distinct (map id_col ex_influencers) \<and>
   distinct (map pay_influencer_id ex_payouts) \<and> int (influencer_count ex_tracking) \<le> 5 \<and>
   sorted_wrt (\<lambda>a b. top_revenue b \<le> top_revenue a)
     (get_top_influencers ex_tracking ex_posts ex_payouts ex_influencers 5) \<and>
   mset (get_top_influencers ex_tracking ex_posts ex_payouts ex_influencers 5) =
     mset (top_inf ex_tracking ex_posts ex_payouts ex_influencers) \<and>
   map top_revenue (get_top_influencers ex_tracking ex_posts ex_payouts ex_influencers 5) =
     [2000, 1999, 1499, 999] \<and>
   (0::int) \<le> 2 \<and>
   length (top_inf ex_tracking ex_posts ex_payouts ex_influencers) = 4 \<and>
   length (get_top_influencers ex_tracking ex_posts ex_payouts ex_influencers 2) = 2 \<and>
   mset (get_top_influencers ex_tracking ex_posts ex_payouts ex_influencers 2) \<subseteq>#
     mset (top_inf ex_tracking ex_posts ex_payouts ex_influencers) \<and>
   map top_revenue (get_top_influencers ex_tracking ex_posts ex_payouts ex_influencers 2) =
     [2000, 1999]"
proof -
  have h: "(0::int) \<le> 5" and h2: "(0::int) \<le> 2" by simp_all
  have d: "distinct (map id_col ex_influencers)" "distinct (map pay_influencer_id ex_payouts)"
    by (simp_all add: ex_influencers_def ex_payouts_def)
  have c: "int (influencer_count ex_tracking) \<le> 5" by code_simp
  have n: "length (top_inf ex_tracking ex_posts ex_payouts ex_influencers) = 4" by code_simp
  have v: "map top_revenue (get_top_influencers ex_tracking ex_posts ex_payouts ex_influencers 5) =
     [2000, 1999, 1499, 999]"
    "map top_revenue (get_top_influencers ex_tracking ex_posts ex_payouts ex_influencers 2) =
     [2000, 1999]"
    by code_simp+
  note five = top_influencers_sorted_truncated[OF h, of ex_tracking ex_posts ex_payouts ex_influencers]
  note two = top_influencers_sorted_truncated[OF h2, of ex_tracking ex_posts ex_payouts ex_influencers]
  from five d c have m5: "mset (get_top_influencers ex_tracking ex_posts ex_payouts ex_influencers 5) =
     mset (top_inf ex_tracking ex_posts ex_payouts ex_influencers)"
    by blast
  from five have s5: "sorted_wrt (\<lambda>a b. top_revenue b \<le> top_revenue a)
     (get_top_influencers ex_tracking ex_posts ex_payouts ex_influencers 5)"
    by (rule conjunct1)
  from two have l2: "length (get_top_influencers ex_tracking ex_posts ex_payouts ex_influencers 2) =
     min (nat 2) (length (top_inf ex_tracking ex_posts ex_payouts ex_influencers))"
    and sub2: "mset (get_top_influencers ex_tracking ex_posts ex_payouts ex_influencers 2) \<subseteq>#
     mset (top_inf ex_tracking ex_posts ex_payouts ex_influencers)"
    by blast+
  from l2 n have l2': "length (get_top_influencers ex_tracking ex_posts ex_payouts ex_influencers 2) = 2"
    by simp
  show ?thesis
    by (intro conjI h h2 d c s5 m5 v n l2' sub2)
qed

text \<open>
  Claim C10. \<open>get_top_influencers\<close> joins the per-influencer revenue aggregates to the
  influencer roster with an inner join: an influencer id that has no row in the
  influencers table is on no row of the ranker's output, even when it has
  influencer-sourced tracking rows.
\<close>

theorem unlisted_influencer_dropped:
  assumes "k \<notin> set (map id_col influencers)"
  shows "k \<notin> set (map top_influencer_id
                   (get_top_influencers tracking_f posts_f payouts influencers top_n))"
proof
  assume "k \<in> set (map top_influencer_id
                   (get_top_influencers tracking_f posts_f payouts influencers top_n))"
  then obtain r
    where r: "r \<in> set (get_top_influencers tracking_f posts_f payouts influencers top_n)"
    and k: "top_influencer_id r = k"
    by auto
  from r have "r \<in> set (sort_values_desc top_revenue (top_inf tracking_f posts_f payouts influencers))"
    unfolding get_top_influencers_def by (rule subsetD[OF head_subset])
  then have "r \<in> set (top_inf tracking_f posts_f payouts influencers)"
    by (simp add: sort_values_desc_def)
  from top_inf_row_roster[OF this] have "top_influencer r \<in> set influencers"
    and eq: "id_col (top_influencer r) = top_influencer_id r" by simp_all
  then have "k \<in> set (map id_col influencers)" using k by force
  with assms show False by contradiction
qed

text \<open>
  Influencers 2, 3 and 4 have influencer-sourced revenue; with a roster that lists
  influencer 1 only, the ranker returns the row of influencer 1 alone.
\<close>

theorem unlisted_influencer_dropped_witness:
  "2 \<notin> set (map id_col (take 1 ex_influencers)) \<and>
   Some 2 \<in> set (map influencer_id ex_tracking) \<and>
   2 \<notin> set (map top_influencer_id
              (get_top_influencers ex_tracking ex_posts ex_payouts (take 1 ex_influencers) 5)) \<and>
   map top_influencer_id
     (get_top_influencers ex_tracking ex_posts ex_payouts (take 1 ex_influencers) 5) = [1]"
proof -
  have h: "2 \<notin> set (map id_col (take 1 ex_influencers))"
    by (simp add: ex_influencers_def)
  have t: "Some 2 \<in> set (map influencer_id ex_tracking)"
    by (simp add: ex_tracking_def)
  have v: "map top_influencer_id
     (get_top_influencers ex_tracking ex_posts ex_payouts (take 1 ex_influencers) 5) = [1]"
    by code_simp
  from unlisted_influencer_dropped[OF h, of ex_tracking ex_posts ex_payouts 5] h t v
  show ?thesis by simp
qed

end
